theory Spec2Isabelle
  imports Main "HOL-Library.Char_ord" "HOL-Library.List_Lexorder" "HOL-Library.AList"
begin

section \<open>Target-eye: the TargetConfig record and its mutation protocol\<close>

text \<open>
  A shallow embedding of \<^verbatim>\<open>fa_target_eye/target_config.py\<close>,
  \<^verbatim>\<open>fa_target_eye/target_config_schema.py\<close> and of the PUT handler's replace
  paths in \<^verbatim>\<open>fa_target_eye/rest_api.py\<close>.

  Modelling decisions.
  \<^item> A Python \<^verbatim>\<open>str\<close> is a \<open>string\<close>; one \<open>char\<close> stands for one code point, so
    the model covers the strings whose code points are below 256. On these,
    \<^verbatim>\<open>value.encode("utf-8")\<close> never raises.
  \<^item> A Python \<^verbatim>\<open>dict\<close> is an association list in insertion order
    (\<open>AList.update\<close> overwrites in place or appends, as \<^verbatim>\<open>d[k] = v\<close> does).
    A real dict has pairwise distinct keys; theorems that need this say so.
  \<^item> A method that mutates \<^verbatim>\<open>self\<close> returns the outcome (an exception or the
    returned value) together with the object as it is afterwards.
  \<^item> Functions of third-party packages (\<^verbatim>\<open>validators.domain\<close>,
    \<^verbatim>\<open>validators.ipv4\<close>, the compiled \<^verbatim>\<open>METRIC_LABEL_NAME_RE\<close>,
    \<^verbatim>\<open>hashlib.md5\<close>) and the iteration order of a Python \<^verbatim>\<open>set\<close> are
    parameters, collected in the record \<open>ext\<close>.
\<close>

subsection \<open>Exceptions\<close>

datatype error = ValueError | TypeError | FileNotFoundError | KeyError | IndexError

subsection \<open>Python dictionaries\<close>

type_synonym pydict = "(string \<times> string) list"

definition keys :: "pydict \<Rightarrow> string list" where
  "keys d = map fst d"

text \<open>\<^verbatim>\<open>k in d\<close>\<close>

definition dict_in :: "string \<Rightarrow> pydict \<Rightarrow> bool" where
  "dict_in k d \<longleftrightarrow> k \<in> set (keys d)"

text \<open>\<^verbatim>\<open>d.update(other)\<close>: the items of \<open>other\<close> are stored one after another.\<close>

definition dict_update :: "pydict \<Rightarrow> pydict \<Rightarrow> pydict" where
  "dict_update other d = fold (\<lambda>(k, v). AList.update k v) other d"

text \<open>\<^verbatim>\<open>a == b\<close> on dicts: the same number of items, and every item of \<open>a\<close> is in \<open>b\<close>.\<close>

definition dict_eq :: "pydict \<Rightarrow> pydict \<Rightarrow> bool" where
  "dict_eq a b \<longleftrightarrow> length a = length b \<and> list_all (\<lambda>(k, v). map_of b k = Some v) a"

text \<open>
  \<^verbatim>\<open>for k in ks: del d[k]\<close>: a missing key raises \<^verbatim>\<open>KeyError\<close> and leaves the
  deletions made so far in place.
\<close>

fun del_items :: "string list \<Rightarrow> pydict \<Rightarrow> error option \<times> pydict" where
  "del_items [] d = (None, d)"
| "del_items (k # ks) d =
     (if dict_in k d then del_items ks (AList.delete k d) else (Some KeyError, d))"

subsection \<open>The record\<close>

text \<open>
  \<open>filename_cache\<close> is the private attribute \<^verbatim>\<open>_filename\<close>; \<open>file_lock\<close> is the
  identity of the \<^verbatim>\<open>asyncio.Lock\<close> object the record holds.
\<close>

record TargetConfig =
  application :: string
  environment :: string
  targets :: "string list"
  labels :: pydict
  filename_cache :: "string option"
  file_lock :: nat

subsection \<open>Python string methods\<close>

text \<open>\<^verbatim>\<open>str.isspace\<close> on the code points below 256: the ASCII white space, the
  separators FS, GS, RS and US, NEL and the no-break space.\<close>

definition isspace :: "char \<Rightarrow> bool" where
  "isspace c \<longleftrightarrow>
     (let n = (of_char c :: nat) in (9 \<le> n \<and> n \<le> 13) \<or> (28 \<le> n \<and> n \<le> 32) \<or> n = 133 \<or> n = 160)"

text \<open>\<^verbatim>\<open>s.strip()\<close>\<close>

definition strip :: "string \<Rightarrow> string" where
  "strip s = rev (dropWhile isspace (rev (dropWhile isspace s)))"

text \<open>The characters \<^verbatim>\<open>0\<close> to \<^verbatim>\<open>9\<close>: the regular expression class
  \<^verbatim>\<open>[0-9]\<close>, and the only decimal digits below 256.\<close>

definition is_decimal :: "char \<Rightarrow> bool" where
  "is_decimal c \<longleftrightarrow> (48::nat) \<le> of_char c \<and> of_char c \<le> (57::nat)"

text \<open>\<^verbatim>\<open>str.isdigit\<close>: below 256 the digits are the decimals and the superscripts
  two, three and one; the empty string has no digit.\<close>

definition isdigit_char :: "char \<Rightarrow> bool" where
  "isdigit_char c \<longleftrightarrow> is_decimal c \<or> of_char c \<in> {178, 179, 185 :: nat}"

definition isdigit :: "string \<Rightarrow> bool" where
  "isdigit s \<longleftrightarrow> s \<noteq> [] \<and> list_all isdigit_char s"

text \<open>
  \<^verbatim>\<open>int(s)\<close> for a string \<open>s\<close> that passed \<^verbatim>\<open>isdigit\<close> (the only call in the
  source): the number in base ten when every character is a decimal, and
  \<^verbatim>\<open>ValueError\<close> (here \<open>None\<close>) when a superscript occurs. The limit that later
  CPython versions put on the number of digits is not modelled.
\<close>

definition int_of_digits :: "string \<Rightarrow> int option" where
  "int_of_digits s =
     (if list_all is_decimal s then Some (foldl (\<lambda>n c. 10 * n + (int (of_char c) - 48)) 0 s)
      else None)"

text \<open>\<^verbatim>\<open>s.split(sep)\<close> for a separator of one character.\<close>

fun split :: "char \<Rightarrow> string \<Rightarrow> string list" where
  "split sep [] = [[]]"
| "split sep (c # cs) =
     (if c = sep then [] # split sep cs
      else (case split sep cs of [] \<Rightarrow> [[c]] | l # ls \<Rightarrow> (c # l) # ls))"

text \<open>\<^verbatim>\<open>host, *rest = s.split(sep, maxsplit=1)\<close>: the part before the first
  separator, and the list holding the part after it when there is a separator.\<close>

definition split_once :: "char \<Rightarrow> string \<Rightarrow> string \<times> string list" where
  "split_once sep s =
     (takeWhile (\<lambda>c. c \<noteq> sep) s,
      case dropWhile (\<lambda>c. c \<noteq> sep) s of [] \<Rightarrow> [] | _ # r \<Rightarrow> [r])"

subsection \<open>The regular expressions\<close>

text \<open>\<^verbatim>\<open>$\<close> (no MULTILINE flag) matches at the end of the string and just before a
  newline that ends the string; \<open>rest\<close> is what follows the position.\<close>

definition re_dollar :: "string \<Rightarrow> bool" where
  "re_dollar rest \<longleftrightarrow> rest = [] \<or> rest = [CHR 0x0A]"

text \<open>\<^verbatim>\<open>[a-z0-9-]\<close> under \<^verbatim>\<open>re.IGNORECASE\<close>, on the code points below 256.\<close>

definition hostname_char :: "char \<Rightarrow> bool" where
  "hostname_char c \<longleftrightarrow>
     (let n = (of_char c :: nat) in
        (97 \<le> n \<and> n \<le> 122) \<or> (65 \<le> n \<and> n \<le> 90) \<or> (48 \<le> n \<and> n \<le> 57) \<or> n = 45)"

text \<open>
  \<^verbatim>\<open>HOSTNAME_RE.match(s)\<close> for
  \<^verbatim>\<open>HOSTNAME_RE = re.compile(r"(?!-)[a-z0-9-]{1,63}(?<!-)$", re.IGNORECASE)\<close>:
  there is a number \<open>k\<close> of repetitions, from 1 to 63, such that the first \<open>k\<close>
  characters are in the class, the first character is not a hyphen (the lookahead), the
  \<open>k\<close>-th is not a hyphen (the lookbehind), and \<^verbatim>\<open>$\<close> matches what follows.
\<close>

definition HOSTNAME_RE_match :: "string \<Rightarrow> bool" where
  "HOSTNAME_RE_match s \<longleftrightarrow>
     list_ex (\<lambda>k. k \<le> length s \<and> list_all hostname_char (take k s)
                  \<and> hd s \<noteq> CHR ''-'' \<and> last (take k s) \<noteq> CHR ''-''
                  \<and> re_dollar (drop k s)) [1..<64]"

text \<open>\<^verbatim>\<open>re.match(r"[0-9]+$", s)\<close>\<close>

definition all_numeric_match :: "string \<Rightarrow> bool" where
  "all_numeric_match s \<longleftrightarrow>
     list_ex (\<lambda>k. list_all is_decimal (take k s) \<and> re_dollar (drop k s)) [1..<Suc (length s)]"

subsection \<open>Third-party functions\<close>

text \<open>
  \<open>ext_domain\<close> and \<open>ext_ipv4\<close> say whether \<^verbatim>\<open>validators.domain\<close> and
  \<^verbatim>\<open>validators.ipv4\<close> return \<^verbatim>\<open>True\<close>; \<open>ext_label_name\<close> says whether
  \<^verbatim>\<open>METRIC_LABEL_NAME_RE.match\<close> finds a match; \<open>ext_md5\<close> is
  \<^verbatim>\<open>md5(s.encode("utf-8")).hexdigest()\<close>; \<open>ext_set_order\<close> is the order in which
  \<^verbatim>\<open>list\<close> enumerates the set built from the given distinct elements.
\<close>

record ext =
  ext_domain :: "string \<Rightarrow> bool"
  ext_ipv4 :: "string \<Rightarrow> bool"
  ext_label_name :: "string \<Rightarrow> bool"
  ext_md5 :: "string \<Rightarrow> string"
  ext_set_order :: "string list \<Rightarrow> string list"

subsection \<open>\<^verbatim>\<open>valid_hostname\<close> and \<^verbatim>\<open>validate_target\<close>\<close>

text \<open>The decorator \<^verbatim>\<open>@validators.validator\<close> turns the result into \<^verbatim>\<open>True\<close> or a
  false \<^verbatim>\<open>ValidationFailure\<close> object: a \<open>bool\<close>.\<close>

definition valid_hostname :: "string \<Rightarrow> bool" where
  "valid_hostname hostname =
     (if strip hostname = [] then False
      else
        let hostname = (if last hostname = CHR ''.'' then butlast hostname else hostname) in
        if length hostname > 253 then False
        else
          let labels = split CHR ''.'' hostname in
          if all_numeric_match (last labels) then False
          else list_all HOSTNAME_RE_match labels)"

definition valid_host :: "ext \<Rightarrow> string \<Rightarrow> error + bool" where
  "valid_host X host =
     (if valid_hostname host then Inr True
      else if ext_domain X host then Inr True
      else if ext_ipv4 X host then Inr True
      else Inl ValueError)"

definition valid_port :: "string \<Rightarrow> error + bool" where
  "valid_port port =
     (if \<not> isdigit port then Inl ValueError
      else (case int_of_digits port of
              None \<Rightarrow> Inl ValueError
            | Some n \<Rightarrow> if \<not> (1 \<le> n \<and> n < 2 ^ 16) then Inl ValueError else Inr True))"

definition validate_target :: "ext \<Rightarrow> string \<Rightarrow> error + bool" where
  "validate_target X target =
     (case split_once CHR '':'' target of (host, rest) \<Rightarrow>
        if strip host = [] then Inl ValueError
        else
          let port = (if rest = [] then ''80'' else hd rest) in
          (case valid_host X host of
             Inl e \<Rightarrow> Inl e
           | Inr h \<Rightarrow> if h then valid_port port else Inr h))"

text \<open>\<^verbatim>\<open>validate_targets\<close>: \<^verbatim>\<open>all(self.validate_target(t) for t in targets)\<close>.\<close>

fun validate_targets :: "ext \<Rightarrow> string list \<Rightarrow> error + bool" where
  "validate_targets X [] = Inr True"
| "validate_targets X (t # ts) =
     (case validate_target X t of
        Inl e \<Rightarrow> Inl e
      | Inr b \<Rightarrow> if b then validate_targets X ts else Inr False)"

subsection \<open>\<^verbatim>\<open>validate_label\<close> and \<^verbatim>\<open>validate_labels\<close>\<close>

text \<open>The value is encoded first; on the strings of the model this never raises.\<close>

definition validate_label :: "ext \<Rightarrow> string \<Rightarrow> string \<Rightarrow> error + bool" where
  "validate_label X label_name label_value =
     (if \<not> ext_label_name X label_name then Inl ValueError else Inr True)"

fun validate_labels :: "ext \<Rightarrow> pydict \<Rightarrow> error + bool" where
  "validate_labels X [] = Inr True"
| "validate_labels X ((label_name, label_value) # rest) =
     (case validate_label X label_name label_value of
        Inl e \<Rightarrow> Inl e
      | Inr b \<Rightarrow> if b then validate_labels X rest else Inr False)"

subsection \<open>Construction and equality\<close>

text \<open>\<^verbatim>\<open>__attrs_post_init__\<close>\<close>

definition attrs_post_init :: "TargetConfig \<Rightarrow> TargetConfig" where
  "attrs_post_init self =
     (let self = (if labels self = []
                  then self\<lparr>labels := [(''job'', application self), (''env'', environment self)]\<rparr>
                  else self);
          self = (if \<not> dict_in ''job'' (labels self)
                  then self\<lparr>labels := AList.update ''job'' (application self) (labels self)\<rparr>
                  else self);
          self = (if \<not> dict_in ''env'' (labels self)
                  then self\<lparr>labels := AList.update ''env'' (environment self) (labels self)\<rparr>
                  else self)
      in self)"

text \<open>
  The constructor \<^verbatim>\<open>TargetConfig(application=..., environment=..., targets=...,
  labels=..., file_lock=...)\<close> that \<^verbatim>\<open>attrs\<close> generates: it stores the arguments,
  runs the validators of \<^verbatim>\<open>targets\<close> and of \<^verbatim>\<open>labels\<close> in the order of the
  attributes (only an exception of a validator counts, its result is dropped), and then
  calls \<^verbatim>\<open>__attrs_post_init__\<close>. \<^verbatim>\<open>_filename\<close> starts as \<^verbatim>\<open>None\<close>.
\<close>

definition TargetConfig_init ::
    "ext \<Rightarrow> string \<Rightarrow> string \<Rightarrow> string list \<Rightarrow> pydict \<Rightarrow> nat \<Rightarrow> error + TargetConfig" where
  "TargetConfig_init X app env ts ls lock =
     (case validate_targets X ts of
        Inl e \<Rightarrow> Inl e
      | Inr _ \<Rightarrow>
         (case validate_labels X ls of
            Inl e \<Rightarrow> Inl e
          | Inr _ \<Rightarrow>
              Inr (attrs_post_init
                \<lparr>application = app, environment = env, targets = ts, labels = ls,
                 filename_cache = None, file_lock = lock\<rparr>)))"

text \<open>\<^verbatim>\<open>__eq__\<close>\<close>

definition TargetConfig_eq :: "TargetConfig \<Rightarrow> TargetConfig \<Rightarrow> bool" where
  "TargetConfig_eq self other \<longleftrightarrow>
     application self = application other
     \<and> environment self = environment other
     \<and> sort (targets self) = sort (targets other)
     \<and> dict_eq (labels self) (labels other)"

text \<open>\<^verbatim>\<open>__deepcopy__\<close>: \<^verbatim>\<open>attr.evolve(self, file_lock=self._file_lock)\<close> calls the
  constructor again with the attributes of \<open>self\<close>.\<close>

definition deepcopy :: "ext \<Rightarrow> TargetConfig \<Rightarrow> error + TargetConfig" where
  "deepcopy X self =
     TargetConfig_init X (application self) (environment self) (targets self) (labels self)
       (file_lock self)"

text \<open>The property \<^verbatim>\<open>filename\<close>: the name, and the object with the hash cached.\<close>

definition filename :: "ext \<Rightarrow> TargetConfig \<Rightarrow> string \<times> TargetConfig" where
  "filename X self =
     (let self = (if filename_cache self = None
                  then self\<lparr>filename_cache := Some (ext_md5 X (application self @ environment self))\<rparr>
                  else self)
      in (the (filename_cache self) @ ''.json'', self))"

subsection \<open>\<^verbatim>\<open>update_with_new_targets\<close>\<close>

text \<open>The loop of \<^verbatim>\<open>update_with_new_targets\<close>; \<open>Inr True\<close> when it runs to its end.\<close>

fun new_targets_loop :: "ext \<Rightarrow> string list \<Rightarrow> string list \<Rightarrow> error + bool" where
  "new_targets_loop X cur [] = Inr True"
| "new_targets_loop X cur (target # rest) =
     (if target \<in> set cur then Inr False
      else (case validate_target X target of
              Inl e \<Rightarrow> Inl e
            | Inr _ \<Rightarrow> new_targets_loop X cur rest))"

text \<open>\<^verbatim>\<open>sorted(set(targets))\<close> is the sorted list of the distinct elements, whatever
  order the set has: \<open>sort (remdups targets)\<close>.\<close>

definition update_with_new_targets ::
    "ext \<Rightarrow> string list \<Rightarrow> TargetConfig \<Rightarrow> (error + bool) \<times> TargetConfig" where
  "update_with_new_targets X ts self =
     (if ts = [] then (Inr False, self)
      else if sort (remdups ts) \<noteq> sort ts then (Inr False, self)
      else (case new_targets_loop X (targets self) ts of
              Inl e \<Rightarrow> (Inl e, self)
            | Inr b \<Rightarrow>
                if b then (Inr True, self\<lparr>targets := targets self @ ts\<rparr>)
                else (Inr False, self)))"

subsection \<open>\<^verbatim>\<open>update_with_new_labels\<close>\<close>

fun new_labels_loop :: "ext \<Rightarrow> pydict \<Rightarrow> pydict \<Rightarrow> error + bool" where
  "new_labels_loop X cur [] = Inr True"
| "new_labels_loop X cur ((name, val) # rest) =
     (if \<not> dict_in name cur then new_labels_loop X cur rest
      else if strip val = [] then Inr False
      else if map_of cur name = Some val then Inr False
      else (case validate_label X name val of
              Inl e \<Rightarrow> Inl e
            | Inr _ \<Rightarrow> new_labels_loop X cur rest))"

definition update_with_new_labels ::
    "ext \<Rightarrow> pydict \<Rightarrow> TargetConfig \<Rightarrow> (error + bool) \<times> TargetConfig" where
  "update_with_new_labels X ls self =
     (if ls = [] then (Inr False, self)
      else (case new_labels_loop X (labels self) ls of
              Inl e \<Rightarrow> (Inl e, self)
            | Inr b \<Rightarrow>
                if b then (Inr True, self\<lparr>labels := dict_update ls (labels self)\<rparr>)
                else (Inr False, self)))"

subsection \<open>\<^verbatim>\<open>delete_from_targets\<close>\<close>

text \<open>
  \<^verbatim>\<open>list(set(self.targets) - set(targets))\<close>: the elements of the difference, each
  once, in the order of the set, which is \<open>ext_set_order\<close>.
\<close>

definition delete_from_targets ::
    "ext \<Rightarrow> string list \<Rightarrow> TargetConfig \<Rightarrow> (error + bool) \<times> TargetConfig" where
  "delete_from_targets X ts self =
     (if ts = [] then (Inr False, self)
      else if \<not> list_all (\<lambda>target. target \<in> set (targets self)) ts then (Inr False, self)
      else if sort (remdups ts) \<noteq> sort ts then (Inr False, self)
      else if length ts = length (targets self) then (Inr False, self)
      else (Inr True,
            self\<lparr>targets :=
              ext_set_order X (filter (\<lambda>t. t \<notin> set ts) (remdups (targets self)))\<rparr>))"

subsection \<open>\<^verbatim>\<open>delete_from_labels\<close>\<close>

text \<open>The first loop of \<^verbatim>\<open>delete_from_labels\<close>: false as soon as a name is unknown or
  its value differs from the stored one.\<close>

fun labels_confirmed :: "pydict \<Rightarrow> pydict \<Rightarrow> bool" where
  "labels_confirmed cur [] = True"
| "labels_confirmed cur ((label_name, label_value) # rest) =
     (if \<not> dict_in label_name cur then False
      else if Some label_value \<noteq> map_of cur label_name then False
      else labels_confirmed cur rest)"

definition delete_from_labels :: "pydict \<Rightarrow> TargetConfig \<Rightarrow> (error + bool) \<times> TargetConfig" where
  "delete_from_labels ls tc =
     (if ls = [] then (Inr False, tc)
      else if dict_in ''job'' ls \<or> dict_in ''env'' ls then (Inr False, tc)
      else if \<not> labels_confirmed (labels tc) ls then (Inr False, tc)
      else (case del_items (keys ls) (labels tc) of
              (Some e, d) \<Rightarrow> (Inl e, tc\<lparr>labels := d\<rparr>)
            | (None, d) \<Rightarrow> (Inr True, tc\<lparr>labels := d\<rparr>)))"

subsection \<open>The replace paths of the PUT handler\<close>

text \<open>\<^verbatim>\<open>for request_target in request_targets:
  target_config.validate_target(request_target)\<close>: only an exception counts.\<close>

fun validate_each :: "ext \<Rightarrow> string list \<Rightarrow> error option" where
  "validate_each X [] = None"
| "validate_each X (request_target # rest) =
     (case validate_target X request_target of
        Inl e \<Rightarrow> Some e
      | Inr _ \<Rightarrow> validate_each X rest)"

text \<open>The branch \<^verbatim>\<open>if request_targets:\<close> of \<^verbatim>\<open>put\<close>: validate every target, then
  \<^verbatim>\<open>target_config.targets = request_targets\<close>.\<close>

definition put_replace_targets ::
    "ext \<Rightarrow> string list \<Rightarrow> TargetConfig \<Rightarrow> (error + unit) \<times> TargetConfig" where
  "put_replace_targets X request_targets target_config =
     (case validate_each X request_targets of
        Some e \<Rightarrow> (Inl e, target_config)
      | None \<Rightarrow> (Inr (), target_config\<lparr>targets := request_targets\<rparr>))"

text \<open>\<^verbatim>\<open>for label_name, label_value in new_labels.items():
  target_config.validate_label(label_name, label_value)\<close>\<close>

fun validate_each_label :: "ext \<Rightarrow> pydict \<Rightarrow> error option" where
  "validate_each_label X [] = None"
| "validate_each_label X ((label_name, label_value) # rest) =
     (case validate_label X label_name label_value of
        Inl e \<Rightarrow> Some e
      | Inr _ \<Rightarrow> validate_each_label X rest)"

text \<open>\<^verbatim>\<open>replace_labels_for_put\<close>; \<^verbatim>\<open>target_config.labels["job"]\<close> raises
  \<^verbatim>\<open>KeyError\<close> when the key is missing.\<close>

definition replace_labels_for_put ::
    "ext \<Rightarrow> pydict \<Rightarrow> TargetConfig \<Rightarrow> (error + unit) \<times> TargetConfig" where
  "replace_labels_for_put X new_labels target_config =
     (case (if \<not> dict_in ''job'' new_labels
            then (case map_of (labels target_config) ''job'' of
                    None \<Rightarrow> Inl KeyError
                  | Some v \<Rightarrow> Inr (AList.update ''job'' v new_labels))
            else Inr new_labels) of
        Inl e \<Rightarrow> (Inl e, target_config)
      | Inr new_labels \<Rightarrow>
         (case (if \<not> dict_in ''env'' new_labels
                then (case map_of (labels target_config) ''env'' of
                        None \<Rightarrow> Inl KeyError
                      | Some v \<Rightarrow> Inr (AList.update ''env'' v new_labels))
                else Inr new_labels) of
            Inl e \<Rightarrow> (Inl e, target_config)
          | Inr new_labels \<Rightarrow>
             (case validate_each_label X new_labels of
                Some e \<Rightarrow> (Inl e, target_config)
              | None \<Rightarrow> (Inr (), target_config\<lparr>labels := new_labels\<rparr>))))"

text \<open>
  \<^verbatim>\<open>find_or_create_target_config\<close>: \<open>target_configs\<close> is the registry
  \<^verbatim>\<open>REST_APP.config["target_configs"]\<close>, from file names to records; \<open>lock\<close> is the
  lock a newly constructed record gets.
\<close>

definition find_or_create_target_config ::
    "ext \<Rightarrow> string \<Rightarrow> string \<Rightarrow> (string \<rightharpoonup> TargetConfig) \<Rightarrow> nat \<Rightarrow> error + TargetConfig" where
  "find_or_create_target_config X app env target_configs lock =
     (case TargetConfig_init X app env [] [] lock of
        Inl e \<Rightarrow> Inl e
      | Inr looking_for \<Rightarrow>
         (case filename X looking_for of (name, looking_for) \<Rightarrow>
            (case target_configs name of
               Some found_target \<Rightarrow> deepcopy X found_target
             | None \<Rightarrow> Inr looking_for)))"

text \<open>
  The record that \<^verbatim>\<open>put\<close> builds before it writes it: \<open>request_targets\<close> and
  \<open>request_labels\<close> are what \<^verbatim>\<open>targets_in_request\<close> and \<^verbatim>\<open>labels_in_request\<close>
  returned (\<open>None\<close> for \<^verbatim>\<open>None\<close>); an empty list or dict is false in a condition.
\<close>

definition put_target_config ::
    "ext \<Rightarrow> (string \<rightharpoonup> TargetConfig) \<Rightarrow> string \<Rightarrow> string \<Rightarrow> string list option \<Rightarrow>
     pydict option \<Rightarrow> nat \<Rightarrow> error + TargetConfig" where
  "put_target_config X target_configs app env request_targets request_labels lock =
     (let has_targets = (request_targets \<noteq> None \<and> request_targets \<noteq> Some []);
          has_labels = (request_labels \<noteq> None \<and> request_labels \<noteq> Some [])
      in
      if has_targets \<and> has_labels
      then TargetConfig_init X app env (the request_targets) (the request_labels) lock
      else
        (case find_or_create_target_config X app env target_configs lock of
           Inl e \<Rightarrow> Inl e
         | Inr target_config \<Rightarrow>
            (case (if has_targets then put_replace_targets X (the request_targets) target_config
                   else (Inr (), target_config)) of
               (Inl e, _) \<Rightarrow> Inl e
             | (Inr _, target_config) \<Rightarrow>
                (case (if has_labels
                       then replace_labels_for_put X (the request_labels) target_config
                       else (Inr (), target_config)) of
                   (Inl e, _) \<Rightarrow> Inl e
                 | (Inr _, target_config) \<Rightarrow> Inr target_config))))"

subsection \<open>JSON documents and the file schema\<close>

text \<open>
  The documents of the model are built from strings, arrays and objects, which is what a
  record serialises to. \<^verbatim>\<open>json.dumps\<close> and \<^verbatim>\<open>json.loads\<close> themselves are not
  modelled: a document stands for its text, and \<^verbatim>\<open>json.loads(json.dumps(d))\<close> is \<open>d\<close>.
\<close>

datatype json = JString string | JArray "json list" | JObject "(string \<times> json) list"

text \<open>The document of the property \<^verbatim>\<open>json\<close>:
  \<^verbatim>\<open>[{"targets": self.targets, "labels": self.labels}]\<close>.\<close>

definition json_doc :: "TargetConfig \<Rightarrow> json" where
  "json_doc self =
     JArray [JObject [(''targets'', JArray (map JString (targets self))),
                      (''labels'', JObject (map (\<lambda>(k, v). (k, JString v)) (labels self)))]]"

text \<open>
  The keywords of JSON Schema that \<^verbatim>\<open>target_config_schema.py\<close> uses, each as the
  set of documents it accepts. A keyword constrains the documents of one type and accepts
  every document of another type; \<^verbatim>\<open>description\<close> constrains nothing. A schema
  accepts a document when all its keywords do.
\<close>

type_synonym schema = "json \<Rightarrow> bool"

definition type_string :: schema where
  "type_string j = (case j of JString _ \<Rightarrow> True | _ \<Rightarrow> False)"

definition type_array :: schema where
  "type_array j = (case j of JArray _ \<Rightarrow> True | _ \<Rightarrow> False)"

definition type_object :: schema where
  "type_object j = (case j of JObject _ \<Rightarrow> True | _ \<Rightarrow> False)"

definition minLength :: "nat \<Rightarrow> schema" where
  "minLength n j = (case j of JString s \<Rightarrow> n \<le> length s | _ \<Rightarrow> True)"

definition minItems :: "nat \<Rightarrow> schema" where
  "minItems n j = (case j of JArray xs \<Rightarrow> n \<le> length xs | _ \<Rightarrow> True)"

definition maxItems :: "nat \<Rightarrow> schema" where
  "maxItems n j = (case j of JArray xs \<Rightarrow> length xs \<le> n | _ \<Rightarrow> True)"

definition items :: "schema \<Rightarrow> schema" where
  "items sch j = (case j of JArray xs \<Rightarrow> list_all sch xs | _ \<Rightarrow> True)"

definition minProperties :: "nat \<Rightarrow> schema" where
  "minProperties n j = (case j of JObject m \<Rightarrow> n \<le> length m | _ \<Rightarrow> True)"

definition maxProperties :: "nat \<Rightarrow> schema" where
  "maxProperties n j = (case j of JObject m \<Rightarrow> length m \<le> n | _ \<Rightarrow> True)"

definition properties :: "(string \<times> schema) list \<Rightarrow> schema" where
  "properties ps j =
     (case j of
        JObject m \<Rightarrow>
          list_all (\<lambda>(name, sch). case map_of m name of None \<Rightarrow> True | Some v \<Rightarrow> sch v) ps
      | _ \<Rightarrow> True)"

definition required :: "string list \<Rightarrow> schema" where
  "required names j =
     (case j of JObject m \<Rightarrow> list_all (\<lambda>name. name \<in> set (map fst m)) names | _ \<Rightarrow> True)"

definition all_of :: "schema list \<Rightarrow> schema" where
  "all_of keywords j = list_all (\<lambda>keyword. keyword j) keywords"

definition NON_EMPTY_STRING :: schema where
  "NON_EMPTY_STRING = all_of [type_string, minLength 1]"

text \<open>The source puts the schema of the items under \<^verbatim>\<open>properties\<close>, a keyword that
  constrains objects only; it is kept as written.\<close>

definition TARGETS_LIST_SCHEMA :: schema where
  "TARGETS_LIST_SCHEMA =
     all_of [type_array, minItems 1, properties [(''items'', NON_EMPTY_STRING)]]"

definition LABELS_DICT_SCHEMA :: schema where
  "LABELS_DICT_SCHEMA =
     all_of [type_object, minProperties 2,
             properties [(''job'', NON_EMPTY_STRING), (''env'', NON_EMPTY_STRING)],
             required [''job'', ''env'']]"

definition TARGET_CONFIG_OBJECT_SCHEMA :: schema where
  "TARGET_CONFIG_OBJECT_SCHEMA =
     all_of [type_object, minProperties 2, maxProperties 2,
             properties [(''targets'', TARGETS_LIST_SCHEMA), (''labels'', LABELS_DICT_SCHEMA)],
             required [''targets'', ''labels'']]"

definition TARGET_CONFIG_FILE_SCHEMA :: schema where
  "TARGET_CONFIG_FILE_SCHEMA =
     all_of [type_array, maxItems 1, minItems 1, items TARGET_CONFIG_OBJECT_SCHEMA]"

text \<open>\<^verbatim>\<open>valid_prometheus_json\<close>\<close>

definition valid_prometheus_json :: "TargetConfig \<Rightarrow> bool" where
  "valid_prometheus_json self = TARGET_CONFIG_FILE_SCHEMA (json_doc self)"

subsection \<open>Files\<close>

text \<open>
  The file system as far as \<^verbatim>\<open>write_to_file\<close> sees it: which paths are directories,
  and the document each file holds. Failures of the operating system other than a
  missing directory, and the wait for the lock, are not modelled.
\<close>

record filesystem =
  fs_isdir :: "string \<Rightarrow> bool"
  fs_files :: "string \<rightharpoonup> json"

text \<open>\<^verbatim>\<open>os.path.join(directory, name)\<close> on POSIX.\<close>

definition path_join :: "string \<Rightarrow> string \<Rightarrow> string" where
  "path_join directory name =
     (if name \<noteq> [] \<and> hd name = CHR ''/'' then name
      else if directory = [] \<or> last directory = CHR ''/'' then directory @ name
      else directory @ ''/'' @ name)"

definition write_to_file ::
    "ext \<Rightarrow> string \<Rightarrow> TargetConfig \<Rightarrow> filesystem \<Rightarrow> (error + unit) \<times> TargetConfig \<times> filesystem" where
  "write_to_file X directory self fs =
     (if \<not> valid_prometheus_json self then (Inl TypeError, self, fs)
      else if \<not> fs_isdir fs directory then (Inl FileNotFoundError, self, fs)
      else
        (case filename X self of (name, self) \<Rightarrow>
           (Inr (), self,
            fs\<lparr>fs_files := (fs_files fs)(path_join directory name \<mapsto> json_doc self)\<rparr>)))"

subsection \<open>\<^verbatim>\<open>from_json_file\<close>\<close>

text \<open>\<^verbatim>\<open>d[0]\<close> and \<^verbatim>\<open>d[key]\<close> for a string \<open>key\<close>.\<close>

definition subscript_0 :: "json \<Rightarrow> error + json" where
  "subscript_0 d =
     (case d of
        JArray [] \<Rightarrow> Inl IndexError
      | JArray (x # _) \<Rightarrow> Inr x
      | JObject _ \<Rightarrow> Inl KeyError
      | JString [] \<Rightarrow> Inl IndexError
      | JString (c # _) \<Rightarrow> Inr (JString [c]))"

definition subscript :: "json \<Rightarrow> string \<Rightarrow> error + json" where
  "subscript d key =
     (case d of
        JObject m \<Rightarrow> (case map_of m key of None \<Rightarrow> Inl KeyError | Some v \<Rightarrow> Inr v)
      | _ \<Rightarrow> Inl TypeError)"

definition str_of :: "json \<Rightarrow> string option" where
  "str_of j = (case j of JString s \<Rightarrow> Some s | _ \<Rightarrow> None)"

fun strs_of :: "json list \<Rightarrow> string list option" where
  "strs_of [] = Some []"
| "strs_of (j # js) =
     (case (str_of j, strs_of js) of (Some s, Some ss) \<Rightarrow> Some (s # ss) | _ \<Rightarrow> None)"

fun dict_of :: "(string \<times> json) list \<Rightarrow> pydict option" where
  "dict_of [] = Some []"
| "dict_of ((k, j) # m) =
     (case (str_of j, dict_of m) of (Some s, Some d) \<Rightarrow> Some ((k, s) # d) | _ \<Rightarrow> None)"

text \<open>
  \<^verbatim>\<open>from_json_file\<close>, given the document that \<^verbatim>\<open>json.load\<close> read from the file. The
  subscripts are evaluated in the order of the keyword arguments. The constructor is
  modelled for an application and an environment that are strings, a list of strings and
  a dict of strings; for a document that supplies anything else the model gives no
  answer (\<open>None\<close>).
\<close>

definition from_json_file :: "ext \<Rightarrow> json \<Rightarrow> nat \<Rightarrow> (error + TargetConfig) option" where
  "from_json_file X target_config_list lock =
     (case subscript_0 target_config_list of
        Inl e \<Rightarrow> Some (Inl e)
      | Inr target_config_dict \<Rightarrow>
     (case subscript target_config_dict ''labels'' of
        Inl e \<Rightarrow> Some (Inl e)
      | Inr ls \<Rightarrow>
     (case subscript ls ''job'' of
        Inl e \<Rightarrow> Some (Inl e)
      | Inr job \<Rightarrow>
     (case subscript ls ''env'' of
        Inl e \<Rightarrow> Some (Inl e)
      | Inr env \<Rightarrow>
     (case subscript target_config_dict ''targets'' of
        Inl e \<Rightarrow> Some (Inl e)
      | Inr ts \<Rightarrow>
     (case (str_of job, str_of env, ts, ls) of
        (Some app, Some env, JArray ts, JObject ls) \<Rightarrow>
          (case (strs_of ts, dict_of ls) of
             (Some ts, Some ls) \<Rightarrow> Some (TargetConfig_init X app env ts ls lock)
           | _ \<Rightarrow> None)
      | _ \<Rightarrow> None))))))"

subsection \<open>The records the operations can build\<close>

text \<open>
  A record is reachable when the constructor or \<^verbatim>\<open>from_json_file\<close> returned it, or
  when an operation of the model left it behind, whatever the operation answered.
\<close>

inductive reachable :: "ext \<Rightarrow> TargetConfig \<Rightarrow> bool" for X :: ext where
  constructed: "TargetConfig_init X app env ts ls lock = Inr tc \<Longrightarrow> reachable X tc"
| loaded: "from_json_file X doc lock = Some (Inr tc) \<Longrightarrow> reachable X tc"
| copied: "reachable X tc \<Longrightarrow> deepcopy X tc = Inr tc' \<Longrightarrow> reachable X tc'"
| added_targets: "reachable X tc \<Longrightarrow> reachable X (snd (update_with_new_targets X ts tc))"
| added_labels: "reachable X tc \<Longrightarrow> reachable X (snd (update_with_new_labels X ls tc))"
| deleted_targets: "reachable X tc \<Longrightarrow> reachable X (snd (delete_from_targets X ts tc))"
| deleted_labels: "reachable X tc \<Longrightarrow> reachable X (snd (delete_from_labels ls tc))"
| replaced_targets: "reachable X tc \<Longrightarrow> reachable X (snd (put_replace_targets X ts tc))"
| replaced_labels: "reachable X tc \<Longrightarrow> reachable X (snd (replace_labels_for_put X ls tc))"
| named: "reachable X tc \<Longrightarrow> reachable X (snd (filename X tc))"
| written: "reachable X tc \<Longrightarrow> reachable X (fst (snd (write_to_file X directory tc fs)))"

definition has_protected :: "TargetConfig \<Rightarrow> bool" where
  "has_protected tc \<longleftrightarrow> dict_in ''job'' (labels tc) \<and> dict_in ''env'' (labels tc)"

subsection \<open>The spec's description of a valid target\<close>

text \<open>
  These definitions follow the words of the spec (section 4.1), not the code; the
  properties compare \<^verbatim>\<open>validate_target\<close> with them. A host name is read as its
  labels between the dots: every label has 1 to 63 characters, all of them letters,
  digits or hyphens, the first and the last not a hyphen; the whole has at most 253
  characters; the final label is not purely numeric. A port consists of decimal digits
  and denotes a number from 1 to 65535.
\<close>

definition spec_label :: "string \<Rightarrow> bool" where
  "spec_label l \<longleftrightarrow>
     1 \<le> length l \<and> length l \<le> 63 \<and> list_all hostname_char l
     \<and> hd l \<noteq> CHR ''-'' \<and> last l \<noteq> CHR ''-''"

definition spec_numeric :: "string \<Rightarrow> bool" where
  "spec_numeric l \<longleftrightarrow> l \<noteq> [] \<and> list_all is_decimal l"

definition spec_hostname :: "string \<Rightarrow> bool" where
  "spec_hostname h \<longleftrightarrow>
     length h \<le> 253 \<and> list_all spec_label (split CHR ''.'' h)
     \<and> \<not> spec_numeric (last (split CHR ''.'' h))"

definition spec_port :: "string \<Rightarrow> bool" where
  "spec_port p \<longleftrightarrow>
     p \<noteq> [] \<and> list_all is_decimal p
     \<and> (case int_of_digits p of None \<Rightarrow> False | Some n \<Rightarrow> 1 \<le> n \<and> n \<le> 65535)"

definition spec_validate_target :: "ext \<Rightarrow> string \<Rightarrow> bool" where
  "spec_validate_target X s \<longleftrightarrow>
     (case split_once CHR '':'' s of (host, rest) \<Rightarrow>
        strip host \<noteq> []
        \<and> (spec_hostname host \<or> ext_domain X host \<or> ext_ipv4 X host)
        \<and> (rest = [] \<or> spec_port (hd rest)))"

text \<open>The description as amended: one dot at the end of the host is dropped before the
  host is read as a host name.\<close>

definition without_final_dot :: "string \<Rightarrow> string" where
  "without_final_dot h = (if h \<noteq> [] \<and> last h = CHR ''.'' then butlast h else h)"

definition spec_validate_target_dot :: "ext \<Rightarrow> string \<Rightarrow> bool" where
  "spec_validate_target_dot X s \<longleftrightarrow>
     (case split_once CHR '':'' s of (host, rest) \<Rightarrow>
        strip host \<noteq> []
        \<and> (spec_hostname (without_final_dot host) \<or> ext_domain X host \<or> ext_ipv4 X host)
        \<and> (rest = [] \<or> spec_port (hd rest)))"

subsection \<open>The order of a set\<close>

text \<open>What is known of \<^verbatim>\<open>list(s)\<close> for a set \<open>s\<close>: it holds the elements of \<open>s\<close>,
  each once.\<close>

definition enumerates_sets :: "ext \<Rightarrow> bool" where
  "enumerates_sets X \<longleftrightarrow>
     (\<forall>xs. distinct xs \<longrightarrow> set (ext_set_order X xs) = set xs \<and> distinct (ext_set_order X xs))"

subsection \<open>Values for the examples\<close>

text \<open>
  Modelled from the spec: \<^verbatim>\<open>METRIC_LABEL_NAME_RE\<close> belongs to the package
  \<^verbatim>\<open>prometheus_client\<close>; section 4.1 of the spec gives the grammar of label names
  as \<^verbatim>\<open>[a-zA-Z_][a-zA-Z0-9_]*\<close>.
\<close>

definition label_name_start :: "char \<Rightarrow> bool" where
  "label_name_start c \<longleftrightarrow>
     (let n = (of_char c :: nat) in (97 \<le> n \<and> n \<le> 122) \<or> (65 \<le> n \<and> n \<le> 90) \<or> n = 95)"

definition label_name_grammar :: "string \<Rightarrow> bool" where
  "label_name_grammar s \<longleftrightarrow>
     s \<noteq> [] \<and> label_name_start (hd s)
     \<and> list_all (\<lambda>c. label_name_start c \<or> is_decimal c) (tl s)"

definition accepts_none :: "string \<Rightarrow> bool" where
  "accepts_none s = False"

definition same_order :: "string list \<Rightarrow> string list" where
  "same_order xs = xs"

definition hash_stub :: "string \<Rightarrow> string" where
  "hash_stub s = ''h-'' @ s"

text \<open>
  The third-party functions of the examples. Every host of the examples either passes
  \<^verbatim>\<open>valid_hostname\<close>, so that \<^verbatim>\<open>validators.domain\<close> and \<^verbatim>\<open>validators.ipv4\<close>
  are not called, or is a string that both reject (a host with a space in it, a host
  that ends in a dot or in a newline); \<open>accepts_none\<close> stands for both functions.
  \<open>hash_stub\<close> stands for the hash, of which the examples use only that it is a
  function; the sets that the examples enumerate have at most one element, so their
  order does not matter.
\<close>

definition ext0 :: ext where
  "ext0 = \<lparr>ext_domain = accepts_none, ext_ipv4 = accepts_none,
            ext_label_name = label_name_grammar, ext_md5 = hash_stub,
            ext_set_order = same_order\<rparr>"

definition cfg_abc :: TargetConfig where
  "cfg_abc = \<lparr>application = ''app'', environment = ''env'', targets = [''localhost:12345''],
     labels = [(''A'', ''1''), (''B'', ''2''), (''job'', ''app''), (''env'', ''env'')],
     filename_cache = None, file_lock = 0\<rparr>"

definition cfg_dup :: TargetConfig where
  "cfg_dup = \<lparr>application = ''app'', environment = ''env'', targets = [''h:1'', ''h:1''],
     labels = [(''job'', ''app''), (''env'', ''env'')], filename_cache = None, file_lock = 0\<rparr>"


definition registry_abc :: "string \<rightharpoonup> TargetConfig" where
  "registry_abc = [''h-appenv.json'' \<mapsto> cfg_abc]"

definition cfg_put :: TargetConfig where
  "cfg_put = cfg_abc\<lparr>labels := [(''k'', ''v''), (''job'', ''app''), (''env'', ''env'')]\<rparr>"

definition cfg_empty :: TargetConfig where
  "cfg_empty = \<lparr>application = ''app'', environment = ''env'', targets = [],
     labels = [(''job'', ''app''), (''env'', ''env'')], filename_cache = None, file_lock = 0\<rparr>"

definition fs_no_dir :: filesystem where
  "fs_no_dir = \<lparr>fs_isdir = accepts_none, fs_files = Map.empty\<rparr>"

definition cfg_over :: TargetConfig where
  "cfg_over = \<lparr>application = ''app'', environment = ''env'', targets = [''h:1''],
     labels = [(''job'', ''other''), (''env'', ''env'')], filename_cache = None, file_lock = 0\<rparr>"


definition cfg_two :: TargetConfig where
  "cfg_two = cfg_abc\<lparr>targets := [''localhost:12345'', ''a:1'']\<rparr>"

section \<open>Properties\<close>

subsection \<open>Dictionaries\<close>

lemma labels_confirmed_iff:
  "labels_confirmed cur ls \<longleftrightarrow> (\<forall>(k, v) \<in> set ls. map_of cur k = Some v)"
proof (induction ls)
  case Nil
  show ?case by simp
next
  case (Cons p ls)
  obtain k v where p: "p = (k, v)" by (cases p)
  have "map_of cur k = Some v \<Longrightarrow> dict_in k cur"
    by (auto simp: dict_in_def keys_def dest: map_of_SomeD intro: rev_image_eqI)
  with Cons p show ?case by auto
qed

lemma del_items_all_present:
  "distinct ks \<Longrightarrow> set ks \<subseteq> set (keys d) \<Longrightarrow>
   del_items ks d = (None, filter (\<lambda>(k, v). k \<notin> set ks) d)"
proof (induction ks arbitrary: d)
  case Nil
  show ?case by simp
next
  case (Cons k ks)
  have in_d: "dict_in k d" using Cons.prems by (simp add: dict_in_def)
  have sub: "set ks \<subseteq> set (keys (AList.delete k d))"
    using Cons.prems by (auto simp: keys_def AList.delete_keys)
  have "del_items (k # ks) d = del_items ks (AList.delete k d)"
    using in_d by simp
  also have "\<dots> = (None, filter (\<lambda>(k, v). k \<notin> set ks) (AList.delete k d))"
    using Cons.IH [OF _ sub] Cons.prems by simp
  also have "filter (\<lambda>(k, v). k \<notin> set ks) (AList.delete k d)
             = filter (\<lambda>(k', v). k' \<notin> set (k # ks)) d"
    by (induction d) (auto simp: AList.delete_eq)
  finally show ?case .
qed

subsection \<open>C5: \<^verbatim>\<open>delete_from_labels\<close> is compare-and-delete\<close>

text \<open>
  Claim C5. For every record and every dict \<open>victims\<close> (a dict has pairwise distinct
  keys), \<^verbatim>\<open>delete_from_labels(victims)\<close> returns \<^verbatim>\<open>True\<close> and removes exactly the
  keys of \<open>victims\<close> from the labels (the other items stay, in their order) exactly
  when \<open>victims\<close> is non-empty, neither \<^verbatim>\<open>job\<close> nor \<^verbatim>\<open>env\<close> is a key of
  \<open>victims\<close>, and every key of \<open>victims\<close> is stored with exactly the value supplied;
  in every other case it returns \<^verbatim>\<open>False\<close> and the record is unchanged.
\<close>

theorem delete_from_labels_compare_and_delete:
  assumes "distinct (keys victims)"
  shows "delete_from_labels victims tc =
     (if victims \<noteq> [] \<and> \<not> dict_in ''job'' victims \<and> \<not> dict_in ''env'' victims
         \<and> (\<forall>(k, v) \<in> set victims. map_of (labels tc) k = Some v)
      then (Inr True, tc\<lparr>labels := filter (\<lambda>(k, v). \<not> dict_in k victims) (labels tc)\<rparr>)
      else (Inr False, tc))"
proof (cases "victims \<noteq> [] \<and> \<not> dict_in ''job'' victims \<and> \<not> dict_in ''env'' victims
         \<and> (\<forall>(k, v) \<in> set victims. map_of (labels tc) k = Some v)")
  case True
  then have conf: "labels_confirmed (labels tc) victims"
    by (simp add: labels_confirmed_iff)
  have "set (keys victims) \<subseteq> set (keys (labels tc))"
  proof
    fix k assume "k \<in> set (keys victims)"
    then obtain v where "(k, v) \<in> set victims" by (auto simp: keys_def)
    with True have "map_of (labels tc) k = Some v" by auto
    then show "k \<in> set (keys (labels tc))"
      by (auto simp: keys_def dest: map_of_SomeD intro: rev_image_eqI)
  qed
  then have "del_items (keys victims) (labels tc)
             = (None, filter (\<lambda>(k, v). k \<notin> set (keys victims)) (labels tc))"
    using assms by (rule del_items_all_present [rotated])
  with True conf show ?thesis
    by (simp add: delete_from_labels_def dict_in_def)
next
  case False
  then show ?thesis
    by (auto simp: delete_from_labels_def labels_confirmed_iff)
qed

theorem delete_from_labels_compare_and_delete_witness:
  "distinct (keys [(''A'', ''1'')]) \<and>
   delete_from_labels [(''A'', ''1'')] cfg_abc =
     (Inr True, cfg_abc\<lparr>labels := [(''B'', ''2''), (''job'', ''app''), (''env'', ''env'')]\<rparr>) \<and>
   delete_from_labels [(''A'', ''2'')] cfg_abc = (Inr False, cfg_abc) \<and>
   delete_from_labels [(''job'', ''app'')] cfg_abc = (Inr False, cfg_abc)"
  using delete_from_labels_compare_and_delete [of "[(''A'', ''1'')]" cfg_abc]
    delete_from_labels_compare_and_delete [of "[(''A'', ''2'')]" cfg_abc]
    delete_from_labels_compare_and_delete [of "[(''job'', ''app'')]" cfg_abc]
  by (simp add: keys_def dict_in_def cfg_abc_def)

subsection \<open>Lists and validation\<close>

lemma sort_remdups_iff: "sort (remdups xs) \<noteq> sort xs \<longleftrightarrow> \<not> distinct xs"
proof
  assume "sort (remdups xs) \<noteq> sort xs"
  then show "\<not> distinct xs" by (auto simp: distinct_remdups_id)
next
  assume nd: "\<not> distinct xs"
  show "sort (remdups xs) \<noteq> sort xs"
  proof
    assume "sort (remdups xs) = sort xs"
    then have "length (sort (remdups xs)) = length (sort xs)" by simp
    then have "length (remdups xs) = length xs" by simp
    then have "remdups xs = xs" by (simp add: length_remdups_eq)
    then have "distinct xs" by (metis distinct_remdups)
    with nd show False by simp
  qed
qed

lemma validate_target_cases:
  "validate_target X t = Inr True \<or> validate_target X t = Inl ValueError"
  by (auto simp: validate_target_def valid_host_def valid_port_def Let_def
      split: prod.splits option.splits sum.splits)

lemma new_targets_loop_char:
  "new_targets_loop X cur new =
     (case dropWhile (\<lambda>t. t \<notin> set cur \<and> validate_target X t = Inr True) new of
        [] \<Rightarrow> Inr True
      | t # _ \<Rightarrow> if t \<in> set cur then Inr False else Inl ValueError)"
proof (induction new)
  case Nil
  show ?case by simp
next
  case (Cons t ts)
  from validate_target_cases [of X t] Cons show ?case by (auto split: list.splits)
qed

subsection \<open>C2: duplicate targets\<close>

text \<open>
  Claim C2 says that the targets of a record never hold an entry twice, whatever public
  operation built them, the replace path of PUT included. The constructor and the
  replace path of PUT store the list as it is given: both keep the duplicate of
  \<^verbatim>\<open>["h:1", "h:1"]\<close>, every item of which passes \<^verbatim>\<open>validate_target\<close>.
\<close>

theorem duplicates_stored_by_init_and_put:
  "validate_target ext0 ''h:1'' = Inr True
   \<and> TargetConfig_init ext0 ''app'' ''env'' [''h:1'', ''h:1''] [] 0 = Inr cfg_dup
   \<and> put_replace_targets ext0 [''h:1'', ''h:1''] cfg_abc
       = (Inr (), cfg_abc\<lparr>targets := [''h:1'', ''h:1'']\<rparr>)
   \<and> put_target_config ext0 Map.empty ''app'' ''env'' (Some [''h:1'', ''h:1'']) None 0
       = Inr (cfg_dup\<lparr>filename_cache := Some ''h-appenv''\<rparr>)
   \<and> \<not> distinct (targets cfg_dup)"
  by code_simp

subsection \<open>C6: \<^verbatim>\<open>delete_from_targets\<close> on a record with a duplicate\<close>

text \<open>
  Claim C6 says that \<^verbatim>\<open>delete_from_targets\<close> never succeeds when it would leave the
  targets empty. On the record \<open>cfg_dup\<close> (built by the constructor, see C2), whose
  targets are \<^verbatim>\<open>["h:1", "h:1"]\<close>, deleting \<^verbatim>\<open>["h:1"]\<close> passes the comparison of
  the lengths, returns \<^verbatim>\<open>True\<close> and leaves no target.
\<close>

theorem delete_from_targets_empties_duplicates:
  "delete_from_targets ext0 [''h:1''] cfg_dup = (Inr True, cfg_dup\<lparr>targets := []\<rparr>)"
  by code_simp

subsection \<open>C3: \<^verbatim>\<open>update_with_new_targets\<close>\<close>

text \<open>
  Claim C3, as amended. \<^verbatim>\<open>update_with_new_targets(new)\<close> returns \<^verbatim>\<open>False\<close> when
  \<open>new\<close> is empty or holds an element twice, malformed or not. Otherwise the first
  element of \<open>new\<close> that is already a target or is malformed decides: when there is
  none, the call returns \<^verbatim>\<open>True\<close> and appends all of \<open>new\<close>; when that element is
  already a target, it returns \<^verbatim>\<open>False\<close>; when it is malformed and not a target, it
  raises \<^verbatim>\<open>ValueError\<close>. The record changes only when \<^verbatim>\<open>True\<close> is returned. In
  particular, for a list \<open>new\<close> of well-formed targets the call returns \<^verbatim>\<open>True\<close> and
  appends \<open>new\<close> exactly when \<open>new\<close> is non-empty, without duplicates and disjoint
  from the targets, and returns \<^verbatim>\<open>False\<close> with the record unchanged in every other
  case.
\<close>

theorem update_with_new_targets_outcomes:
  "update_with_new_targets X new tc =
     (if new = [] \<or> \<not> distinct new then (Inr False, tc)
      else (case dropWhile (\<lambda>t. t \<notin> set (targets tc) \<and> validate_target X t = Inr True) new of
              [] \<Rightarrow> (Inr True, tc\<lparr>targets := targets tc @ new\<rparr>)
            | t # _ \<Rightarrow> if t \<in> set (targets tc) then (Inr False, tc) else (Inl ValueError, tc)))
   \<and> ((\<forall>t \<in> set new. validate_target X t = Inr True) \<longrightarrow>
        update_with_new_targets X new tc =
          (if new \<noteq> [] \<and> distinct new \<and> set new \<inter> set (targets tc) = {}
           then (Inr True, tc\<lparr>targets := targets tc @ new\<rparr>) else (Inr False, tc)))"
proof
  show general: "update_with_new_targets X new tc =
     (if new = [] \<or> \<not> distinct new then (Inr False, tc)
      else (case dropWhile (\<lambda>t. t \<notin> set (targets tc) \<and> validate_target X t = Inr True) new of
              [] \<Rightarrow> (Inr True, tc\<lparr>targets := targets tc @ new\<rparr>)
            | t # _ \<Rightarrow> if t \<in> set (targets tc) then (Inr False, tc) else (Inl ValueError, tc)))"
  proof (cases "dropWhile (\<lambda>t. t \<notin> set (targets tc) \<and> validate_target X t = Inr True) new")
    case Nil
    have "new_targets_loop X (targets tc) new = Inr True"
      by (subst new_targets_loop_char) (simp only: Nil list.case)
    then show ?thesis
      by (simp only: update_with_new_targets_def sort_remdups_iff Nil list.case) simp
  next
    case (Cons t r)
    have "new_targets_loop X (targets tc) new
            = (if t \<in> set (targets tc) then Inr False else Inl ValueError)"
      by (subst new_targets_loop_char) (simp only: Cons list.case)
    then show ?thesis
      by (simp only: update_with_new_targets_def sort_remdups_iff Cons list.case) simp
  qed
  show "(\<forall>t \<in> set new. validate_target X t = Inr True) \<longrightarrow>
        update_with_new_targets X new tc =
          (if new \<noteq> [] \<and> distinct new \<and> set new \<inter> set (targets tc) = {}
           then (Inr True, tc\<lparr>targets := targets tc @ new\<rparr>) else (Inr False, tc))"
  proof
    assume valid: "\<forall>t \<in> set new. validate_target X t = Inr True"
    then have eq: "dropWhile (\<lambda>t. t \<notin> set (targets tc) \<and> validate_target X t = Inr True) new
               = dropWhile (\<lambda>t. t \<notin> set (targets tc)) new"
      by (intro dropWhile_cong) auto
    show "update_with_new_targets X new tc =
          (if new \<noteq> [] \<and> distinct new \<and> set new \<inter> set (targets tc) = {}
           then (Inr True, tc\<lparr>targets := targets tc @ new\<rparr>) else (Inr False, tc))"
    proof (cases "dropWhile (\<lambda>t. t \<notin> set (targets tc)) new")
      case Nil
      then have "set new \<inter> set (targets tc) = {}"
        by (auto simp: dropWhile_eq_Nil_conv)
      then show ?thesis unfolding general eq Nil by simp
    next
      case (Cons t r)
      have "t \<in> set (targets tc)"
        using hd_dropWhile [of "\<lambda>t. t \<notin> set (targets tc)" new] Cons by auto
      moreover have "t \<in> set new"
        using set_dropWhileD [of t "\<lambda>t. t \<notin> set (targets tc)" new] Cons by simp
      ultimately show ?thesis unfolding general eq Cons by auto
    qed
  qed
qed

theorem update_with_new_targets_outcomes_witness:
  "validate_target ext0 ''a:1'' = Inr True \<and> validate_target ext0 ''b:2'' = Inr True \<and>
   update_with_new_targets ext0 [''a:1'', ''b:2''] cfg_abc
     = (Inr True, cfg_abc\<lparr>targets := [''localhost:12345'', ''a:1'', ''b:2'']\<rparr>)"
proof -
  have a: "validate_target ext0 ''a:1'' = Inr True" by code_simp
  have b: "validate_target ext0 ''b:2'' = Inr True" by code_simp
  have h: "\<forall>t \<in> set [''a:1'', ''b:2'']. validate_target ext0 t = Inr True" using a b by simp
  from update_with_new_targets_outcomes
         [where new = "[''a:1'', ''b:2'']" and X = ext0 and tc = cfg_abc,
          THEN conjunct2, THEN mp, OF h] a b
  show ?thesis by (simp add: cfg_abc_def)
qed

text \<open>
  The claim as stated fails: a malformed element does not always raise. The list
  \<^verbatim>\<open>["bad host", "bad host"]\<close> is rejected as a list with a duplicate before any
  element is validated, and in \<^verbatim>\<open>["localhost:12345", "bad host"]\<close> the first element
  is already a target, so the call returns \<^verbatim>\<open>False\<close> before it reaches the malformed
  one.
\<close>

theorem update_with_new_targets_malformed_returns_false:
  "validate_target ext0 ''bad host'' = Inl ValueError \<and>
   update_with_new_targets ext0 [''bad host'', ''bad host''] cfg_abc = (Inr False, cfg_abc) \<and>
   update_with_new_targets ext0 [''localhost:12345'', ''bad host''] cfg_abc = (Inr False, cfg_abc)"
  by code_simp

subsection \<open>Label updates\<close>



lemma keys_fold_update:
  "set (keys (fold (\<lambda>(k, v). AList.update k v) ls d)) = set (keys d) \<union> set (keys ls)"
proof (induction ls arbitrary: d)
  case Nil show ?case by (simp add: keys_def)
next
  case (Cons p ls)
  obtain k v where p: "p = (k, v)" by (cases p)
  have "set (keys (AList.update k v d)) = insert k (set (keys d))"
    using AList.dom_update [of k v d] by (simp add: keys_def)
  with Cons p show ?case by (auto simp: keys_def)
qed

subsection \<open>C4: \<^verbatim>\<open>update_with_new_labels\<close>\<close>




subsection \<open>C10: new label names are not validated\<close>




subsection \<open>The protected labels\<close>

lemma dict_in_iff: "dict_in k d \<longleftrightarrow> map_of d k \<noteq> None"
  by (simp add: dict_in_def keys_def map_of_eq_None_iff)

lemma attrs_post_init_labels:
  "map_of (labels (attrs_post_init tc)) k =
     (if k = ''job'' \<and> map_of (labels tc) ''job'' = None then Some (application tc)
      else if k = ''env'' \<and> map_of (labels tc) ''env'' = None then Some (environment tc)
      else map_of (labels tc) k)"
  by (cases "labels tc = []")
     (auto simp: attrs_post_init_def Let_def dict_in_iff AList.update_conv')

lemma attrs_post_init_fields:
  "application (attrs_post_init tc) = application tc"
  "environment (attrs_post_init tc) = environment tc"
  "targets (attrs_post_init tc) = targets tc"
  "file_lock (attrs_post_init tc) = file_lock tc"
  "filename_cache (attrs_post_init tc) = filename_cache tc"
  by (simp_all add: attrs_post_init_def Let_def)

lemma init_labels:
  assumes "TargetConfig_init X app env ts ls lock = Inr tc"
  shows "map_of (labels tc) k =
     (if k = ''job'' \<and> map_of ls ''job'' = None then Some app
      else if k = ''env'' \<and> map_of ls ''env'' = None then Some env
      else map_of ls k)"
proof -
  from assms have "tc = attrs_post_init \<lparr>application = app, environment = env, targets = ts,
      labels = ls, filename_cache = None, file_lock = lock\<rparr>"
    by (auto simp: TargetConfig_init_def split: sum.splits)
  then show ?thesis by (simp add: attrs_post_init_labels)
qed

lemma init_protected: "TargetConfig_init X app env ts ls lock = Inr tc \<Longrightarrow> has_protected tc"
  by (simp add: has_protected_def dict_in_iff init_labels)

lemma del_items_keeps:
  "k \<notin> set ks \<Longrightarrow> dict_in k d \<Longrightarrow> dict_in k (snd (del_items ks d))"
proof (induction ks arbitrary: d)
  case Nil then show ?case by simp
next
  case (Cons a ks)
  then have "dict_in k (AList.delete a d)"
    by (auto simp: dict_in_iff AList.delete_conv')
  with Cons show ?case by auto
qed

lemma delete_from_labels_protected:
  "has_protected tc \<Longrightarrow> has_protected (snd (delete_from_labels ls tc))"
proof -
  assume hp: "has_protected tc"
  show ?thesis
  proof (cases "ls = [] \<or> dict_in ''job'' ls \<or> dict_in ''env'' ls \<or> \<not> labels_confirmed (labels tc) ls")
    case True
    with hp show ?thesis by (auto simp: delete_from_labels_def)
  next
    case False
    then have j: "''job'' \<notin> set (keys ls)" and e: "''env'' \<notin> set (keys ls)"
      by (auto simp: dict_in_def)
    obtain r d where rd: "del_items (keys ls) (labels tc) = (r, d)" by force
    have "dict_in ''job'' d" "dict_in ''env'' d"
      using del_items_keeps [OF j, of "labels tc"] del_items_keeps [OF e, of "labels tc"] hp rd
      by (auto simp: has_protected_def)
    with False rd show ?thesis
      by (cases r) (auto simp: delete_from_labels_def has_protected_def)
  qed
qed

lemma update_with_new_labels_protected:
  "has_protected tc \<Longrightarrow> has_protected (snd (update_with_new_labels X ls tc))"
  by (auto simp: update_with_new_labels_def has_protected_def dict_in_def dict_update_def
        keys_fold_update split: sum.splits)

lemma update_with_new_targets_labels:
  "labels (snd (update_with_new_targets X ts tc)) = labels tc"
  by (auto simp: update_with_new_targets_def split: sum.splits)

lemma delete_from_targets_labels:
  "labels (snd (delete_from_targets X ts tc)) = labels tc"
  by (auto simp: delete_from_targets_def)

lemma put_replace_targets_labels:
  "labels (snd (put_replace_targets X ts tc)) = labels tc"
  by (auto simp: put_replace_targets_def split: option.splits)

lemma filename_labels: "labels (snd (filename X tc)) = labels tc"
  by (auto simp: filename_def Let_def)

lemma write_to_file_labels: "labels (fst (snd (write_to_file X directory tc fs))) = labels tc"
  by (auto simp: write_to_file_def filename_def Let_def split: prod.splits)

lemma update_in: "dict_in k (AList.update k v d)"
  by (simp add: dict_in_iff AList.update_conv')

lemma update_in_other: "dict_in k d \<Longrightarrow> dict_in k (AList.update k' v d)"
  by (simp add: dict_in_iff AList.update_conv')

lemma replace_labels_for_put_protected:
  "has_protected tc \<Longrightarrow> has_protected (snd (replace_labels_for_put X ls tc))"
  by (auto simp: replace_labels_for_put_def has_protected_def update_in update_in_other
        split: sum.splits option.splits if_splits)

lemma from_json_file_init:
  "from_json_file X doc lock = Some (Inr tc) \<Longrightarrow>
   \<exists>app env ts ls. TargetConfig_init X app env ts ls lock = Inr tc"
  by (auto simp: from_json_file_def split: sum.splits option.splits json.splits prod.splits)

lemma reachable_protected: "reachable X tc \<Longrightarrow> has_protected tc"
proof (induction rule: reachable.induct)
  case (constructed app env ts ls lock tc)
  then show ?case by (rule init_protected)
next
  case (loaded doc lock tc)
  then show ?case using from_json_file_init init_protected by blast
next
  case (copied tc tc')
  then show ?case unfolding deepcopy_def by (auto intro: init_protected)
qed (simp_all add: delete_from_labels_protected update_with_new_labels_protected
      replace_labels_for_put_protected,
     simp_all add: has_protected_def update_with_new_targets_labels delete_from_targets_labels
      put_replace_targets_labels filename_labels write_to_file_labels)

lemma put_target_config_reachable:
  assumes reg: "\<forall>name c. target_configs name = Some c \<longrightarrow> reachable X c"
    and put: "put_target_config X target_configs app env rt rl lock = Inr tc"
  shows "reachable X tc"
proof (cases "(rt \<noteq> None \<and> rt \<noteq> Some []) \<and> (rl \<noteq> None \<and> rl \<noteq> Some [])")
  case True
  with put have "TargetConfig_init X app env (the rt) (the rl) lock = Inr tc"
    by (simp add: put_target_config_def)
  then show ?thesis by (rule reachable.constructed)
next
  case False
  from put False obtain c0 where
    foc: "find_or_create_target_config X app env target_configs lock = Inr c0"
    by (auto simp: put_target_config_def Let_def split: sum.splits)
  have r0: "reachable X c0"
  proof -
    from foc obtain lf where lf: "TargetConfig_init X app env [] [] lock = Inr lf"
      by (auto simp: find_or_create_target_config_def split: sum.splits)
    then have rlf: "reachable X lf" by (rule reachable.constructed)
    show ?thesis
    proof (cases "target_configs (fst (filename X lf))")
      case None
      with foc lf have "c0 = snd (filename X lf)"
        by (auto simp: find_or_create_target_config_def split: prod.splits)
      with rlf show ?thesis by (simp add: reachable.named)
    next
      case (Some found)
      with foc lf have "deepcopy X found = Inr c0"
        by (auto simp: find_or_create_target_config_def split: prod.splits)
      moreover from reg Some have "reachable X found" by blast
      ultimately show ?thesis by (rule reachable.copied [rotated])
    qed
  qed
  define c1 where "c1 = (if rt \<noteq> None \<and> rt \<noteq> Some [] then snd (put_replace_targets X (the rt) c0) else c0)"
  define c2 where "c2 = (if rl \<noteq> None \<and> rl \<noteq> Some [] then snd (replace_labels_for_put X (the rl) c1) else c1)"
  have r1: "reachable X c1" unfolding c1_def using r0 by (simp add: reachable.replaced_targets)
  have r2: "reachable X c2" unfolding c2_def using r1 by (simp add: reachable.replaced_labels)
  from put False foc have "tc = c2"
    unfolding c1_def c2_def
    by (auto simp: put_target_config_def Let_def split: sum.splits prod.splits if_splits)
  with r2 show ?thesis by simp
qed

subsection \<open>C7: \<^verbatim>\<open>job\<close> and \<^verbatim>\<open>env\<close> are always present\<close>

text \<open>
  Claim C7. Whenever the constructor returns a record, its labels hold \<^verbatim>\<open>job\<close> and
  \<^verbatim>\<open>env\<close>: the value the caller supplied when there is one, otherwise the application
  and the environment; every other label the caller supplied is kept. Every reachable
  record holds both keys, so no operation removes them; this includes the record that
  the PUT handler builds from a registry of reachable records, on its label-replace path
  as on the others.
\<close>

theorem protected_labels:
  "(TargetConfig_init X app env ts ls lock = Inr tc \<longrightarrow>
      map_of (labels tc) ''job'' = Some (case map_of ls ''job'' of None \<Rightarrow> app | Some v \<Rightarrow> v)
    \<and> map_of (labels tc) ''env'' = Some (case map_of ls ''env'' of None \<Rightarrow> env | Some v \<Rightarrow> v)
    \<and> (\<forall>k v. map_of ls k = Some v \<longrightarrow> map_of (labels tc) k = Some v))
   \<and> (reachable X tc' \<longrightarrow> dict_in ''job'' (labels tc') \<and> dict_in ''env'' (labels tc'))
   \<and> ((\<forall>name c. target_configs name = Some c \<longrightarrow> reachable X c)
        \<and> put_target_config X target_configs app' env' request_targets request_labels lock' = Inr tc''
      \<longrightarrow> dict_in ''job'' (labels tc'') \<and> dict_in ''env'' (labels tc''))"
proof (intro conjI impI)
  assume init: "TargetConfig_init X app env ts ls lock = Inr tc"
  show "map_of (labels tc) ''job'' = Some (case map_of ls ''job'' of None \<Rightarrow> app | Some v \<Rightarrow> v)"
    by (simp add: init_labels [OF init] split: option.splits)
  show "map_of (labels tc) ''env'' = Some (case map_of ls ''env'' of None \<Rightarrow> env | Some v \<Rightarrow> v)"
    by (simp add: init_labels [OF init] split: option.splits)
  show "\<forall>k v. map_of ls k = Some v \<longrightarrow> map_of (labels tc) k = Some v"
    by (simp add: init_labels [OF init])
next
  assume "reachable X tc'"
  then have "has_protected tc'" by (rule reachable_protected)
  then show "dict_in ''job'' (labels tc')" "dict_in ''env'' (labels tc')"
    by (simp_all add: has_protected_def)
next
  assume a: "(\<forall>name c. target_configs name = Some c \<longrightarrow> reachable X c)
        \<and> put_target_config X target_configs app' env' request_targets request_labels lock' = Inr tc''"
  then have "reachable X tc''" using put_target_config_reachable by blast
  then have "has_protected tc''" by (rule reachable_protected)
  then show "dict_in ''job'' (labels tc'')" "dict_in ''env'' (labels tc'')"
    by (simp_all add: has_protected_def)
qed

theorem protected_labels_witness:
  "TargetConfig_init ext0 ''app'' ''env'' [''localhost:12345''] [(''A'', ''1''), (''B'', ''2'')] 0
     = Inr cfg_abc
   \<and> map_of (labels cfg_abc) ''job'' = Some ''app'' \<and> map_of (labels cfg_abc) ''env'' = Some ''env''
   \<and> reachable ext0 cfg_abc
   \<and> put_target_config ext0 registry_abc ''app'' ''env'' None (Some [(''k'', ''v'')]) 1 = Inr cfg_put
   \<and> reachable ext0 cfg_put
   \<and> dict_in ''job'' (labels cfg_put) \<and> dict_in ''env'' (labels cfg_put)"
proof -
  have init: "TargetConfig_init ext0 ''app'' ''env'' [''localhost:12345'']
                [(''A'', ''1''), (''B'', ''2'')] 0 = Inr cfg_abc" by code_simp
  have r: "reachable ext0 cfg_abc" using init by (rule reachable.constructed)
  have reg: "\<forall>name c. registry_abc name = Some c \<longrightarrow> reachable ext0 c"
    using r by (simp add: registry_abc_def)
  have put: "put_target_config ext0 registry_abc ''app'' ''env'' None (Some [(''k'', ''v'')]) 1
               = Inr cfg_put" by code_simp
  have r': "reachable ext0 cfg_put" using reg put by (rule put_target_config_reachable)
  note p = protected_labels [where X = ext0 and tc = cfg_abc and tc' = cfg_put and tc'' = cfg_put
      and target_configs = registry_abc and ts = "[''localhost:12345'']"
      and ls = "[(''A'', ''1''), (''B'', ''2'')]" and app = "''app''" and env = "''env''"
      and lock = 0 and app' = "''app''" and env' = "''env''" and request_targets = None
      and request_labels = "Some [(''k'', ''v'')]" and lock' = 1]
  from p init have "map_of (labels cfg_abc) ''job'' = Some ''app''"
    "map_of (labels cfg_abc) ''env'' = Some ''env''" by simp_all
  moreover from p reg put have "dict_in ''job'' (labels cfg_put)" "dict_in ''env'' (labels cfg_put)"
    by blast+
  ultimately show ?thesis using init r put r' by simp
qed

subsection \<open>The file schema\<close>

lemma map_of_json_labels:
  "map_of (map (\<lambda>(k, v). (k, JString v)) ls) k = map_option JString (map_of ls k)"
  by (induction ls) auto

lemma keys_json_labels: "map fst (map (\<lambda>(k, v). (k, JString v)) ls) = map fst ls"
  by (induction ls) auto

lemma valid_prometheus_json_iff:
  "valid_prometheus_json tc \<longleftrightarrow>
     targets tc \<noteq> [] \<and> 2 \<le> length (labels tc)
     \<and> (\<exists>v. map_of (labels tc) ''job'' = Some v \<and> v \<noteq> [])
     \<and> (\<exists>v. map_of (labels tc) ''env'' = Some v \<and> v \<noteq> [])"
proof -
  have in_keys: "k \<in> fst ` set (labels tc) \<longleftrightarrow> (\<exists>v. map_of (labels tc) k = Some v)" for k
    by (metis map_of_eq_None_iff not_Some_eq)
  have nes: "NON_EMPTY_STRING (JString v) \<longleftrightarrow> v \<noteq> []" for v
    by (cases v) (simp_all add: NON_EMPTY_STRING_def all_of_def type_string_def minLength_def)
  have tl: "TARGETS_LIST_SCHEMA (JArray (map JString (targets tc))) \<longleftrightarrow> targets tc \<noteq> []"
    by (cases "targets tc")
       (simp_all add: TARGETS_LIST_SCHEMA_def all_of_def type_array_def minItems_def properties_def)
  have req: "required names (JObject (map (\<lambda>(k, v). (k, JString v)) (labels tc))) \<longleftrightarrow>
      (\<forall>n \<in> set names. \<exists>v. map_of (labels tc) n = Some v)" for names
    unfolding required_def json.case keys_json_labels by (simp add: list_all_iff in_keys)
  have props: "properties [(''job'', NON_EMPTY_STRING), (''env'', NON_EMPTY_STRING)]
        (JObject (map (\<lambda>(k, v). (k, JString v)) (labels tc))) \<longleftrightarrow>
      (\<forall>v. map_of (labels tc) ''job'' = Some v \<longrightarrow> v \<noteq> [])
      \<and> (\<forall>v. map_of (labels tc) ''env'' = Some v \<longrightarrow> v \<noteq> [])"
    by (simp add: properties_def map_of_json_labels nes split: option.splits)
  have ld: "LABELS_DICT_SCHEMA (JObject (map (\<lambda>(k, v). (k, JString v)) (labels tc))) \<longleftrightarrow>
      2 \<le> length (labels tc)
     \<and> (\<exists>v. map_of (labels tc) ''job'' = Some v \<and> v \<noteq> [])
     \<and> (\<exists>v. map_of (labels tc) ''env'' = Some v \<and> v \<noteq> [])"
    unfolding LABELS_DICT_SCHEMA_def all_of_def list.pred_inject req props
    by (auto simp: type_object_def minProperties_def)
  show ?thesis
    unfolding valid_prometheus_json_def json_doc_def TARGET_CONFIG_FILE_SCHEMA_def
      TARGET_CONFIG_OBJECT_SCHEMA_def
    by (simp add: all_of_def type_array_def type_object_def minItems_def maxItems_def items_def
          minProperties_def maxProperties_def properties_def required_def tl ld)
qed

subsection \<open>C8: the failures of \<^verbatim>\<open>write_to_file\<close>\<close>

text \<open>
  Claim C8, as amended. \<^verbatim>\<open>write_to_file\<close> raises \<^verbatim>\<open>TypeError\<close> when the document
  of the record violates the file schema, which is the case exactly when the targets are
  empty, or there are fewer than two labels, or \<^verbatim>\<open>job\<close> or \<^verbatim>\<open>env\<close> is missing or
  empty; it raises \<^verbatim>\<open>FileNotFoundError\<close> when the document passes the schema and the
  directory does not exist. In both cases the record and the files are as before. In the
  model the call fails in no other case.
\<close>

theorem write_to_file_failures:
  "(\<not> valid_prometheus_json tc \<longrightarrow>
       write_to_file X directory tc fs = (Inl TypeError, tc, fs))
   \<and> (valid_prometheus_json tc \<and> \<not> fs_isdir fs directory \<longrightarrow>
       write_to_file X directory tc fs = (Inl FileNotFoundError, tc, fs))
   \<and> (targets tc = [] \<or> length (labels tc) < 2 \<longrightarrow> \<not> valid_prometheus_json tc)
   \<and> (valid_prometheus_json tc \<longleftrightarrow>
        targets tc \<noteq> [] \<and> 2 \<le> length (labels tc)
        \<and> (\<exists>v. map_of (labels tc) ''job'' = Some v \<and> v \<noteq> [])
        \<and> (\<exists>v. map_of (labels tc) ''env'' = Some v \<and> v \<noteq> []))
   \<and> (fst (write_to_file X directory tc fs) = Inr () \<longleftrightarrow>
        valid_prometheus_json tc \<and> fs_isdir fs directory)"
proof (intro conjI)
  show "valid_prometheus_json tc \<longleftrightarrow>
        targets tc \<noteq> [] \<and> 2 \<le> length (labels tc)
        \<and> (\<exists>v. map_of (labels tc) ''job'' = Some v \<and> v \<noteq> [])
        \<and> (\<exists>v. map_of (labels tc) ''env'' = Some v \<and> v \<noteq> [])"
    by (rule valid_prometheus_json_iff)
  then show "targets tc = [] \<or> length (labels tc) < 2 \<longrightarrow> \<not> valid_prometheus_json tc"
    by auto
qed (auto simp: write_to_file_def split: prod.splits)

theorem write_to_file_failures_witness:
  "TargetConfig_init ext0 ''app'' ''env'' [] [] 0 = Inr cfg_empty
   \<and> \<not> valid_prometheus_json cfg_empty
   \<and> write_to_file ext0 ''/sd'' cfg_empty fs_no_dir = (Inl TypeError, cfg_empty, fs_no_dir)
   \<and> valid_prometheus_json cfg_abc \<and> \<not> fs_isdir fs_no_dir ''/sd''
   \<and> write_to_file ext0 ''/sd'' cfg_abc fs_no_dir = (Inl FileNotFoundError, cfg_abc, fs_no_dir)"
proof -
  have i: "TargetConfig_init ext0 ''app'' ''env'' [] [] 0 = Inr cfg_empty" by code_simp
  have a: "\<not> valid_prometheus_json cfg_empty" by code_simp
  have b: "valid_prometheus_json cfg_abc" by code_simp
  have c: "\<not> fs_isdir fs_no_dir ''/sd''" by (simp add: fs_no_dir_def accepts_none_def)
  note t1 = write_to_file_failures [where tc = cfg_empty and X = ext0 and directory = "''/sd''" and fs = fs_no_dir]
  note t2 = write_to_file_failures [where tc = cfg_abc and X = ext0 and directory = "''/sd''" and fs = fs_no_dir]
  from t1 a have "write_to_file ext0 ''/sd'' cfg_empty fs_no_dir = (Inl TypeError, cfg_empty, fs_no_dir)"
    by blast
  moreover from t2 b c
  have "write_to_file ext0 ''/sd'' cfg_abc fs_no_dir = (Inl FileNotFoundError, cfg_abc, fs_no_dir)"
    by blast
  ultimately show ?thesis using i a b c by simp
qed

text \<open>
  The claim as stated fails where both conditions hold: for a record without targets and
  a directory that does not exist the schema is checked first, and the error is
  \<^verbatim>\<open>TypeError\<close>, not \<^verbatim>\<open>FileNotFoundError\<close>.
\<close>

theorem write_to_file_schema_error_first:
  "TargetConfig_init ext0 ''app'' ''env'' [] [] 0 = Inr cfg_empty
   \<and> \<not> fs_isdir fs_no_dir ''/sd''
   \<and> write_to_file ext0 ''/sd'' cfg_empty fs_no_dir = (Inl TypeError, cfg_empty, fs_no_dir)
   \<and> fst (write_to_file ext0 ''/sd'' cfg_empty fs_no_dir) \<noteq> Inl FileNotFoundError"
proof -
  have i: "TargetConfig_init ext0 ''app'' ''env'' [] [] 0 = Inr cfg_empty" by code_simp
  have a: "\<not> valid_prometheus_json cfg_empty" by code_simp
  have c: "\<not> fs_isdir fs_no_dir ''/sd''" by (simp add: fs_no_dir_def accepts_none_def)
  from a have w: "write_to_file ext0 ''/sd'' cfg_empty fs_no_dir = (Inl TypeError, cfg_empty, fs_no_dir)"
    by (simp add: write_to_file_def)
  from i c w show ?thesis by simp
qed

subsection \<open>Reading a record back\<close>

lemma strs_of_map: "strs_of (map JString ts) = Some ts"
  by (induction ts) (simp_all add: str_of_def)

lemma dict_of_map: "dict_of (map (\<lambda>(k, v). (k, JString v)) ls) = Some ls"
  by (induction ls) (auto simp: str_of_def)

lemma dict_eq_refl: "distinct (keys d) \<Longrightarrow> dict_eq d d"
  by (auto simp: dict_eq_def keys_def list_all_iff)

lemma attrs_post_init_id:
  "dict_in ''job'' (labels tc) \<Longrightarrow> dict_in ''env'' (labels tc) \<Longrightarrow> attrs_post_init tc = tc"
  by (auto simp: attrs_post_init_def Let_def dict_in_def keys_def)

subsection \<open>C1: the round trip through the file\<close>

text \<open>
  Claim C1, as amended. For every record \<open>r\<close> whose targets and labels pass the
  validators of the constructor, whose labels \<^verbatim>\<open>job\<close> and \<^verbatim>\<open>env\<close> hold its
  application and its environment, and whose labels are a dict (distinct keys),
  \<^verbatim>\<open>from_json_file\<close> applied to the document of \<open>r\<close> returns \<open>r\<close> with a new lock and
  no cached file name, and this record equals \<open>r\<close> under \<^verbatim>\<open>__eq__\<close>.
\<close>

theorem round_trip:
  assumes ts: "validate_targets X (targets r) = Inr True"
    and ls: "validate_labels X (labels r) = Inr True"
    and job: "map_of (labels r) ''job'' = Some (application r)"
    and env: "map_of (labels r) ''env'' = Some (environment r)"
    and dict: "distinct (keys (labels r))"
  shows "from_json_file X (json_doc r) lock = Some (Inr (r\<lparr>filename_cache := None, file_lock := lock\<rparr>))
     \<and> TargetConfig_eq (r\<lparr>filename_cache := None, file_lock := lock\<rparr>) r"
proof
  have inj: "dict_in ''job'' (labels r)" "dict_in ''env'' (labels r)"
    using job env by (simp_all add: dict_in_iff)
  have init: "TargetConfig_init X (application r) (environment r) (targets r) (labels r) lock
        = Inr (r\<lparr>filename_cache := None, file_lock := lock\<rparr>)"
    using ts ls inj by (simp add: TargetConfig_init_def attrs_post_init_id)
  show "from_json_file X (json_doc r) lock = Some (Inr (r\<lparr>filename_cache := None, file_lock := lock\<rparr>))"
    using job env init
    by (simp add: from_json_file_def json_doc_def subscript_0_def subscript_def str_of_def
          map_of_json_labels strs_of_map dict_of_map)
  show "TargetConfig_eq (r\<lparr>filename_cache := None, file_lock := lock\<rparr>) r"
    using dict by (simp add: TargetConfig_eq_def dict_eq_refl)
qed

theorem round_trip_witness:
  "validate_targets ext0 (targets cfg_abc) = Inr True
   \<and> validate_labels ext0 (labels cfg_abc) = Inr True
   \<and> map_of (labels cfg_abc) ''job'' = Some (application cfg_abc)
   \<and> map_of (labels cfg_abc) ''env'' = Some (environment cfg_abc)
   \<and> distinct (keys (labels cfg_abc))
   \<and> from_json_file ext0 (json_doc cfg_abc) 7 = Some (Inr (cfg_abc\<lparr>file_lock := 7\<rparr>))
   \<and> TargetConfig_eq (cfg_abc\<lparr>file_lock := 7\<rparr>) cfg_abc"
proof -
  have a: "validate_targets ext0 (targets cfg_abc) = Inr True" by code_simp
  have b: "validate_labels ext0 (labels cfg_abc) = Inr True" by code_simp
  have c: "map_of (labels cfg_abc) ''job'' = Some (application cfg_abc)" by code_simp
  have d: "map_of (labels cfg_abc) ''env'' = Some (environment cfg_abc)" by code_simp
  have e: "distinct (keys (labels cfg_abc))" by code_simp
  have f: "cfg_abc\<lparr>filename_cache := None, file_lock := 7\<rparr> = cfg_abc\<lparr>file_lock := 7\<rparr>"
    by (simp add: cfg_abc_def)
  from round_trip [OF a b c d e, of 7] a b c d e show ?thesis unfolding f by simp
qed

text \<open>
  The claim as stated fails for a record whose \<^verbatim>\<open>job\<close> label was overridden: the
  file holds the labels and the targets only, \<^verbatim>\<open>from_json_file\<close> takes the
  application from the label, and \<^verbatim>\<open>__eq__\<close> compares the applications.
\<close>

theorem round_trip_overridden_job:
  "TargetConfig_init ext0 ''app'' ''env'' [''h:1''] [(''job'', ''other'')] 0 = Inr cfg_over
   \<and> targets cfg_over \<noteq> [] \<and> dict_in ''job'' (labels cfg_over) \<and> dict_in ''env'' (labels cfg_over)
   \<and> from_json_file ext0 (json_doc cfg_over) 0 = Some (Inr (cfg_over\<lparr>application := ''other''\<rparr>))
   \<and> \<not> TargetConfig_eq (cfg_over\<lparr>application := ''other''\<rparr>) cfg_over"
  by code_simp

subsection \<open>Regular expressions and host names\<close>













subsection \<open>C9: \<^verbatim>\<open>validate_target\<close>\<close>




text \<open>
  Outside the amended claim: \<^verbatim>\<open>$\<close> also matches before a newline that ends the
  string, so a host name whose last character is a newline passes as well.
\<close>

lemma validate_target_accepts_final_newline:
  "validate_target ext0 (''abc'' @ [CHR 0x0A]) = Inr True
   \<and> \<not> spec_validate_target ext0 (''abc'' @ [CHR 0x0A])
   \<and> \<not> spec_validate_target_dot ext0 (''abc'' @ [CHR 0x0A])"
  by code_simp

subsection \<open>Records without duplicate targets\<close>

lemma distinct_subset_length:
  assumes "distinct xs" "distinct ys" "set xs \<subseteq> set ys"
  shows "length xs = length ys \<longleftrightarrow> set ys - set xs = {}"
proof -
  have "card (set xs) = length xs" "card (set ys) = length ys"
    using assms by (simp_all add: distinct_card)
  moreover have "card (set xs) = card (set ys) \<longleftrightarrow> set xs = set ys"
    using assms(3) by (metis List.finite_set card_subset_eq)
  ultimately show ?thesis using assms(3) by auto
qed

text \<open>
  On a record whose targets hold no entry twice, \<^verbatim>\<open>delete_from_targets(victims)\<close>
  returns \<^verbatim>\<open>True\<close> exactly when \<open>victims\<close> is non-empty, without duplicates, a part
  of the targets, and leaves a target behind; the targets are then those that are not
  in \<open>victims\<close>, each once, and nothing else changes. Otherwise it returns
  \<^verbatim>\<open>False\<close> and the record is unchanged.
\<close>

theorem delete_from_targets_without_duplicates:
  assumes d: "distinct (targets tc)" and e: "enumerates_sets X"
  shows "fst (delete_from_targets X victims tc)
           = Inr (victims \<noteq> [] \<and> distinct victims \<and> set victims \<subseteq> set (targets tc)
                  \<and> set (targets tc) - set victims \<noteq> {})
     \<and> (fst (delete_from_targets X victims tc) = Inr True \<longrightarrow>
          set (targets (snd (delete_from_targets X victims tc))) = set (targets tc) - set victims
          \<and> distinct (targets (snd (delete_from_targets X victims tc)))
          \<and> snd (delete_from_targets X victims tc)
              = tc\<lparr>targets := targets (snd (delete_from_targets X victims tc))\<rparr>)
     \<and> (fst (delete_from_targets X victims tc) \<noteq> Inr True \<longrightarrow>
          snd (delete_from_targets X victims tc) = tc)"
proof (cases "victims \<noteq> [] \<and> distinct victims \<and> set victims \<subseteq> set (targets tc)")
  case False
  then show ?thesis
    by (auto simp: delete_from_targets_def sort_remdups_iff list_all_iff)
next
  case True
  then have len: "length victims = length (targets tc) \<longleftrightarrow> set (targets tc) - set victims = {}"
    using d by (intro distinct_subset_length) auto
  have dd: "distinct (filter (\<lambda>t. t \<notin> set victims) (remdups (targets tc)))" by simp
  from e dd have s: "set (ext_set_order X (filter (\<lambda>t. t \<notin> set victims) (remdups (targets tc))))
       = set (targets tc) - set victims"
    and d': "distinct (ext_set_order X (filter (\<lambda>t. t \<notin> set victims) (remdups (targets tc))))"
    unfolding enumerates_sets_def by auto
  show ?thesis
  proof (cases "set (targets tc) - set victims = {}")
    case empty: True
    with True len show ?thesis
      by (simp add: delete_from_targets_def sort_remdups_iff list_all_iff subset_iff)
  next
    case nonempty: False
    with True len s d' show ?thesis
      by (simp add: delete_from_targets_def sort_remdups_iff list_all_iff subset_iff)
  qed
qed

theorem delete_from_targets_without_duplicates_witness:
  "distinct (targets cfg_two) \<and> enumerates_sets ext0
   \<and> delete_from_targets ext0 [''a:1''] cfg_two = (Inr True, cfg_abc)
   \<and> fst (delete_from_targets ext0 [''a:1'', ''localhost:12345''] cfg_two) = Inr False"
proof -
  have d: "distinct (targets cfg_two)" by code_simp
  have e: "enumerates_sets ext0" by (simp add: enumerates_sets_def ext0_def same_order_def)
  have c: "\<not> ([''a:1'', ''localhost:12345''] \<noteq> [] \<and> distinct [''a:1'', ''localhost:12345'']
       \<and> set [''a:1'', ''localhost:12345''] \<subseteq> set (targets cfg_two)
       \<and> set (targets cfg_two) - set [''a:1'', ''localhost:12345''] \<noteq> {})" by code_simp
  have r: "delete_from_targets ext0 [''a:1''] cfg_two = (Inr True, cfg_abc)" by code_simp
  from delete_from_targets_without_duplicates [OF d e, of "[''a:1'', ''localhost:12345'']", THEN conjunct1] c
  have "fst (delete_from_targets ext0 [''a:1'', ''localhost:12345''] cfg_two) = Inr False"
    by (simp only: simp_thms)
  with d e r show ?thesis by simp
qed

text \<open>
  \<^verbatim>\<open>update_with_new_targets\<close> and \<^verbatim>\<open>delete_from_targets\<close> keep the targets free
  of duplicates, whatever they answer.
\<close>

theorem targets_stay_distinct:
  assumes d: "distinct (targets tc)" and e: "enumerates_sets X"
  shows "distinct (targets (snd (update_with_new_targets X new tc)))
     \<and> distinct (targets (snd (delete_from_targets X victims tc)))"
proof
  show "distinct (targets (snd (update_with_new_targets X new tc)))"
  proof (cases "fst (update_with_new_targets X new tc) = Inr True")
    case False
    then have "snd (update_with_new_targets X new tc) = tc"
      by (auto simp: update_with_new_targets_def split: sum.splits if_splits)
    with d show ?thesis by simp
  next
    case True
    then have dn: "distinct new" and loop: "new_targets_loop X (targets tc) new = Inr True"
      and res: "snd (update_with_new_targets X new tc) = tc\<lparr>targets := targets tc @ new\<rparr>"
      by (auto simp: update_with_new_targets_def sort_remdups_iff split: sum.splits if_splits)
    from loop have "dropWhile (\<lambda>t. t \<notin> set (targets tc) \<and> validate_target X t = Inr True) new = []"
      by (auto simp: new_targets_loop_char split: list.splits if_splits)
    then have "set new \<inter> set (targets tc) = {}"
      by (auto simp: dropWhile_eq_Nil_conv)
    with d dn res show ?thesis by auto
  qed
  have dd: "distinct (filter (\<lambda>t. t \<notin> set victims) (remdups (targets tc)))" by simp
  with e have "distinct (ext_set_order X (filter (\<lambda>t. t \<notin> set victims) (remdups (targets tc))))"
    unfolding enumerates_sets_def by blast
  with d show "distinct (targets (snd (delete_from_targets X victims tc)))"
    by (simp add: delete_from_targets_def)
qed

theorem targets_stay_distinct_witness:
  "distinct (targets cfg_abc) \<and> enumerates_sets ext0
   \<and> distinct (targets (snd (update_with_new_targets ext0 [''a:1''] cfg_abc)))
   \<and> distinct (targets (snd (delete_from_targets ext0 [''a:1''] cfg_abc)))"
proof -
  have d: "distinct (targets cfg_abc)" by code_simp
  have e: "enumerates_sets ext0" by (simp add: enumerates_sets_def ext0_def same_order_def)
  from targets_stay_distinct [OF d e, of "[''a:1'']" "[''a:1'']"] d e show ?thesis by simp
qed

end
